theory Spec2Isabelle
  imports Main "HOL-Library.Multiset"
begin

section \<open>Type descriptors as the checker sees them\<close>

text \<open>
  The module \<^verbatim>\<open>haystack/core/type_utils.py\<close> compares the objects that Python's
  \<^verbatim>\<open>typing\<close> module builds for annotations. It looks at such an object only through
  \<^verbatim>\<open>is Any\<close>, \<^verbatim>\<open>==\<close>, \<^verbatim>\<open>issubclass\<close>, \<^verbatim>\<open>get_origin\<close> and \<^verbatim>\<open>get_args\<close>,
  so a descriptor is modelled by the data these five read:
  \<^item> \<open>Any\<close> is \<^verbatim>\<open>typing.Any\<close>;
  \<^item> \<open>Class c\<close> is a plain class (\<^verbatim>\<open>int\<close>, \<^verbatim>\<open>str\<close>, \<^verbatim>\<open>NoneType\<close>, the builtin \<^verbatim>\<open>list\<close>,
    a user class), identified by its name: no origin, no arguments;
  \<^item> \<open>Alias c\<close> is an unsubscripted alias of the typing module (\<^verbatim>\<open>typing.List\<close>):
    \<^verbatim>\<open>get_origin\<close> gives the class \<open>c\<close>, \<^verbatim>\<open>get_args\<close> gives \<^verbatim>\<open>()\<close>;
  \<^item> \<open>Subscripted c args\<close> is a subscripted generic (\<^verbatim>\<open>List[int]\<close>, \<^verbatim>\<open>Mapping[str, int]\<close>);
  \<^item> \<open>UnionOf args\<close> is \<^verbatim>\<open>Union[...]\<close> (\<^verbatim>\<open>Optional[X]\<close> is \<^verbatim>\<open>Union[X, NoneType]\<close>);
  \<^item> \<open>LiteralOf vs\<close> is \<^verbatim>\<open>Literal[...]\<close>, whose arguments are constants, not types;
  \<^item> \<open>Value v\<close> is such a constant: the checker and the renderer recurse into the
    arguments of a \<^verbatim>\<open>Literal\<close> and so meet plain values.
  The constants covered are strings, integers, booleans and \<^verbatim>\<open>None\<close>.
\<close>

type_synonym cls = string

datatype lit = LStr string | LInt int | LBool bool | LNone

datatype pyobj =
    Any
  | Class cls
  | Alias cls
  | Subscripted cls "pyobj list"
  | UnionOf "pyobj list"
  | LiteralOf "lit list"
  | Value lit

text \<open>What \<^verbatim>\<open>typing.get_origin\<close> returns: \<^verbatim>\<open>Union\<close>, \<^verbatim>\<open>Literal\<close>, a class, or \<^verbatim>\<open>None\<close>.\<close>

datatype origin = OUnion | OLiteral | OClass cls

fun get_origin :: "pyobj \<Rightarrow> origin option" where
  "get_origin (Alias c) = Some (OClass c)"
| "get_origin (Subscripted c args) = Some (OClass c)"
| "get_origin (UnionOf args) = Some OUnion"
| "get_origin (LiteralOf vs) = Some OLiteral"
| "get_origin Any = None"
| "get_origin (Class c) = None"
| "get_origin (Value v) = None"

fun get_args :: "pyobj \<Rightarrow> pyobj list" where
  "get_args (Subscripted c args) = args"
| "get_args (UnionOf args) = args"
| "get_args (LiteralOf vs) = map Value vs"
| "get_args Any = []"
| "get_args (Class c) = []"
| "get_args (Alias c) = []"
| "get_args (Value v) = []"

text \<open>
  Python's \<^verbatim>\<open>==\<close> on constants: a boolean is the integer 0 or 1, so \<^verbatim>\<open>1 == True\<close>;
  strings and \<^verbatim>\<open>None\<close> equal only themselves.
\<close>

fun lit_eq :: "lit \<Rightarrow> lit \<Rightarrow> bool" where
  "lit_eq (LStr a) (LStr b) = (a = b)"
| "lit_eq (LInt i) (LInt j) = (i = j)"
| "lit_eq (LBool a) (LBool b) = (a = b)"
| "lit_eq (LInt i) (LBool b) = (i = (if b then 1 else 0))"
| "lit_eq (LBool b) (LInt i) = (i = (if b then 1 else 0))"
| "lit_eq LNone LNone = True"
| "lit_eq _ _ = False"

text \<open>
  Python's \<^verbatim>\<open>==\<close> on descriptors. A subscripted generic compares origin and the
  argument tuples, element by element. \<^verbatim>\<open>Union.__eq__\<close> compares the \<^emph>\<open>sets\<close> of
  alternatives, so \<^verbatim>\<open>Union[int, str] == Union[str, int]\<close>. \<^verbatim>\<open>Literal.__eq__\<close> compares
  the sets of (value, type of value) pairs, so \<^verbatim>\<open>Literal[1] != Literal[True]\<close>. Everything
  else is equal to itself only.
\<close>

fun py_eq :: "pyobj \<Rightarrow> pyobj \<Rightarrow> bool" where
  "py_eq Any Any = True"
| "py_eq (Class c) (Class d) = (c = d)"
| "py_eq (Alias c) (Alias d) = (c = d)"
| "py_eq (Subscripted c xs) (Subscripted d ys) = (c = d \<and> list_all2 py_eq xs ys)"
| "py_eq (UnionOf xs) (UnionOf ys) =
     (list_all (\<lambda>x. list_ex (\<lambda>y. py_eq x y) ys) xs \<and>
      list_all (\<lambda>y. list_ex (\<lambda>x. py_eq x y) xs) ys)"
| "py_eq (LiteralOf xs) (LiteralOf ys) = (set xs = set ys)"
| "py_eq (Value a) (Value b) = lit_eq a b"
| "py_eq _ _ = False"

section \<open>The host's subclass check\<close>

text \<open>
  \<^verbatim>\<open>issubclass\<close> is the host's: it answers for classes and raises \<^verbatim>\<open>TypeError\<close> when an
  argument is not one. It is a parameter of the model, a function that returns a boolean
  or raises. The checker calls it inside \<^verbatim>\<open>try: ... except TypeError: pass\<close>.
\<close>

datatype exn = TypeError | OtherError

type_synonym issubclass_fn = "pyobj \<Rightarrow> pyobj \<Rightarrow> exn + bool"

text \<open>
  \<^verbatim>\<open>try: if issubclass(a, b): return True  except TypeError: pass\<close>.
  \<open>Inr True\<close>: the caller returns \<^verbatim>\<open>True\<close>; \<open>Inr False\<close>: it goes on to
  the next statement; \<open>Inl e\<close>: the exception \<open>e\<close>, not a \<^verbatim>\<open>TypeError\<close>, leaves the caller.
\<close>

definition issubclass_or_pass :: "issubclass_fn \<Rightarrow> pyobj \<Rightarrow> pyobj \<Rightarrow> exn + bool" where
  "issubclass_or_pass sub a b =
     (case sub a b of
        Inl TypeError \<Rightarrow> Inr False
      | Inl OtherError \<Rightarrow> Inl OtherError
      | Inr b \<Rightarrow> Inr b)"

text \<open>
  A concrete host for the examples: \<^verbatim>\<open>issubclass\<close> over a class hierarchy \<open>H\<close>, raising
  \<^verbatim>\<open>TypeError\<close> on everything that is not a class.
\<close>

definition nominal_issubclass :: "(cls \<Rightarrow> cls \<Rightarrow> bool) \<Rightarrow> issubclass_fn" where
  "nominal_issubclass H a b =
     (case (a, b) of
        (Class c, Class d) \<Rightarrow> Inr (H c d)
      | _ \<Rightarrow> Inl TypeError)"

text \<open>The builtin classes of the examples: every class is its own subclass and a subclass
  of \<^verbatim>\<open>object\<close>, and \<^verbatim>\<open>bool\<close> is a subclass of \<^verbatim>\<open>int\<close>.\<close>

definition builtins :: "cls \<Rightarrow> cls \<Rightarrow> bool" where
  "builtins c d = (c = d \<or> d = ''object'' \<or> (c = ''bool'' \<and> d = ''int''))"

section \<open>Python's \<^verbatim>\<open>any\<close> and \<^verbatim>\<open>all\<close> over a generator\<close>

text \<open>Both stop at the first deciding element; an exception raised while computing an
  element leaves the loop.\<close>

fun any_py :: "('a \<Rightarrow> exn + bool) \<Rightarrow> 'a list \<Rightarrow> exn + bool" where
  "any_py f [] = Inr False"
| "any_py f (x # xs) =
     (case f x of Inl e \<Rightarrow> Inl e | Inr b \<Rightarrow> if b then Inr True else any_py f xs)"

fun all_py :: "('a \<Rightarrow> exn + bool) \<Rightarrow> 'a list \<Rightarrow> exn + bool" where
  "all_py f [] = Inr True"
| "all_py f (x # xs) =
     (case f x of Inl e \<Rightarrow> Inl e | Inr b \<Rightarrow> if b then all_py f xs else Inr False)"

lemma any_py_cong [fundef_cong]:
  "xs = ys \<Longrightarrow> (\<And>x. x \<in> set ys \<Longrightarrow> f x = g x) \<Longrightarrow> any_py f xs = any_py g ys"
  by (induction ys arbitrary: xs) (auto split: sum.splits)

lemma all_py_cong [fundef_cong]:
  "xs = ys \<Longrightarrow> (\<And>x. x \<in> set ys \<Longrightarrow> f x = g x) \<Longrightarrow> all_py f xs = all_py g ys"
  by (induction ys arbitrary: xs) (auto split: sum.splits)

text \<open>The measure of the recursions: the nesting of a descriptor.\<close>

fun msize :: "pyobj \<Rightarrow> nat" where
  "msize (Subscripted c args) = Suc (sum_list (map msize args))"
| "msize (UnionOf args) = Suc (sum_list (map msize args))"
| "msize (LiteralOf vs) = Suc 0"
| "msize Any = 0"
| "msize (Class c) = 0"
| "msize (Alias c) = 0"
| "msize (Value v) = 0"

lemma msize_get_args: "a \<in> set (get_args x) \<Longrightarrow> msize a < msize x"
  by (cases x) (auto simp: less_Suc_eq_le member_le_sum_list)

lemma msize_zip_args:
  assumes "(a, b) \<in> set (zip (get_args s) (get_args r))"
  shows "msize a + msize b < msize s + msize r"
proof -
  have "a \<in> set (get_args s)" and "b \<in> set (get_args r)"
    using assms by (auto dest: set_zip_leftD set_zip_rightD)
  then show ?thesis
    by (meson add_less_mono msize_get_args)
qed

lemma msize_zip_args_double:
  assumes "(a, b) \<in> set (zip (get_args s) (get_args r))"
  shows "2 * msize a + 2 * msize b < 2 * msize s + 2 * msize r"
  using msize_zip_args [OF assms] by linarith

lemma msize_args_double:
  assumes "x \<in> set (get_args s)" and "y \<in> set (get_args r)"
  shows "Suc (2 * msize x + 2 * msize y) < 2 * msize s + 2 * msize r"
  using msize_get_args [OF assms(1)] msize_get_args [OF assms(2)] by linarith

section \<open>Strict compatibility\<close>

function strict_types_are_compatible :: "issubclass_fn \<Rightarrow> pyobj \<Rightarrow> pyobj \<Rightarrow> exn + bool" where
  "strict_types_are_compatible sub sender receiver =
     (if py_eq sender receiver \<or> receiver = Any then Inr True
      else if sender = Any then Inr False
      else case issubclass_or_pass sub sender receiver of
        Inl e \<Rightarrow> Inl e
      | Inr isSub \<Rightarrow>
          if isSub then Inr True
          else
            let sender_origin = get_origin sender;
                receiver_origin = get_origin receiver
            in if sender_origin \<noteq> Some OUnion \<and> receiver_origin = Some OUnion then
                 any_py (\<lambda>union_arg. strict_types_are_compatible sub sender union_arg)
                   (get_args receiver)
               else if \<not> (sender_origin \<noteq> None \<and> receiver_origin \<noteq> None
                           \<and> sender_origin = receiver_origin) then Inr False
               else
                 let sender_args = get_args sender;
                     receiver_args = get_args receiver
                 in if length sender_args > length receiver_args then Inr False
                    else all_py (\<lambda>(s_arg, r_arg). strict_types_are_compatible sub s_arg r_arg)
                           (zip sender_args receiver_args))"
  by pat_completeness auto
termination
  by (relation "measure (\<lambda>(sub, s, r). msize s + msize r)")
     (auto simp: msize_zip_args dest: msize_get_args)

declare strict_types_are_compatible.simps [simp del]

section \<open>Relaxed compatibility\<close>

text \<open>The two functions call each other, as in the source. The test of the origins
  repeats \<open>sender_origin\<close>, as the source does.\<close>

function relaxed_types_are_compatible :: "issubclass_fn \<Rightarrow> pyobj \<Rightarrow> pyobj \<Rightarrow> exn + bool"
  and relaxed_check_union_compatibility ::
    "issubclass_fn \<Rightarrow> pyobj \<Rightarrow> pyobj \<Rightarrow> origin option \<Rightarrow> origin option \<Rightarrow> exn + bool"
where
  "relaxed_types_are_compatible sub sender receiver =
     (if sender = Any \<or> receiver = Any \<or> py_eq sender receiver then Inr True
      else case issubclass_or_pass sub sender receiver of
        Inl e \<Rightarrow> Inl e
      | Inr isSub \<Rightarrow>
          if isSub then Inr True
          else case issubclass_or_pass sub receiver sender of
            Inl e \<Rightarrow> Inl e
          | Inr isSuper \<Rightarrow>
              if isSuper then Inr True
              else
                let sender_origin = get_origin sender;
                    receiver_origin = get_origin receiver
                in if sender_origin = Some OUnion \<or> receiver_origin = Some OUnion then
                     relaxed_check_union_compatibility sub sender receiver
                       sender_origin receiver_origin
                   else if \<not> (sender_origin \<noteq> None \<and> sender_origin \<noteq> None
                               \<and> sender_origin = receiver_origin) then Inr False
                   else
                     let sender_args = get_args sender;
                         receiver_args = get_args receiver
                     in if sender_origin = Some OLiteral \<and> receiver_origin = Some OLiteral then
                          Inr (list_ex (\<lambda>sender_arg.
                                 list_ex (\<lambda>receiver_arg. py_eq sender_arg receiver_arg)
                                   receiver_args) sender_args)
                        else if length sender_args \<noteq> length receiver_args then Inr False
                        else all_py (\<lambda>(s_arg, r_arg).
                                 relaxed_types_are_compatible sub s_arg r_arg)
                               (zip sender_args receiver_args))"
| "relaxed_check_union_compatibility sub sender receiver sender_origin receiver_origin =
     (if sender_origin = Some OUnion \<and> receiver_origin \<noteq> Some OUnion then
        any_py (\<lambda>union_arg. relaxed_types_are_compatible sub union_arg receiver)
          (get_args sender)
      else if receiver_origin = Some OUnion \<and> sender_origin \<noteq> Some OUnion then
        any_py (\<lambda>union_arg. relaxed_types_are_compatible sub sender union_arg)
          (get_args receiver)
      else
        any_py (\<lambda>arg1.
            any_py (\<lambda>arg2. relaxed_types_are_compatible sub arg1 arg2) (get_args receiver))
          (get_args sender))"
  by pat_completeness auto
termination
  by (relation "measure (\<lambda>x. case x of
          Inl (sub, s, r) \<Rightarrow> 2 * (msize s + msize r) + 1
        | Inr (sub, s, r, so, ro) \<Rightarrow> 2 * (msize s + msize r))")
     (auto simp: msize_zip_args_double msize_args_double dest: msize_get_args)

declare relaxed_types_are_compatible.simps [simp del]
declare relaxed_check_union_compatibility.simps [simp del]

section \<open>The entry point\<close>

text \<open>\<open>type_validation\<close> is a string; the source's default is \<^verbatim>\<open>"strict"\<close>, and every
  value other than \<^verbatim>\<open>"strict"\<close> and \<^verbatim>\<open>"relaxed"\<close> takes the last branch.\<close>

definition types_are_compatible ::
  "issubclass_fn \<Rightarrow> pyobj \<Rightarrow> pyobj \<Rightarrow> string \<Rightarrow> exn + bool" where
  "types_are_compatible sub sender receiver type_validation =
     (if type_validation = ''strict'' then strict_types_are_compatible sub sender receiver
      else if type_validation = ''relaxed'' then relaxed_types_are_compatible sub sender receiver
      else Inr True)"

section \<open>The renderer\<close>

text \<open>Python's \<^verbatim>\<open>str\<close> on the constants: decimal digits for an integer, with a minus sign
  when negative.\<close>

definition digits :: string where
  "digits = ''0123456789''"

fun str_nat :: "nat \<Rightarrow> string" where
  "str_nat n =
     (if n < 10 then [digits ! n]
      else str_nat (n div 10) @ [digits ! (n mod 10)])"

declare str_nat.simps [simp del]

definition str_int :: "int \<Rightarrow> string" where
  "str_int i = (if i < 0 then ''-'' @ str_nat (nat (- i)) else str_nat (nat i))"

fun str_lit :: "lit \<Rightarrow> string" where
  "str_lit (LStr s) = s"
| "str_lit (LInt i) = str_int i"
| "str_lit (LBool b) = (if b then ''True'' else ''False'')"
| "str_lit LNone = ''None''"

text \<open>The single quote, and \<^verbatim>\<open>f"'{s}'"\<close>.\<close>

definition quote :: char where
  "quote = CHR 0x27"

definition quoted :: "string \<Rightarrow> string" where
  "quoted s = [quote] @ s @ [quote]"

text \<open>\<^verbatim>\<open>sep.join(parts)\<close> and \<^verbatim>\<open>s.startswith(p)\<close>.\<close>

fun join :: "string \<Rightarrow> string list \<Rightarrow> string" where
  "join sep [] = []"
| "join sep [p] = p"
| "join sep (p # q # ps) = p @ sep @ join sep (q # ps)"

definition startswith :: "string \<Rightarrow> string \<Rightarrow> bool" where
  "startswith s p = (take (length p) s = p)"

text \<open>
  \<^verbatim>\<open>getattr(type_, "__name__", str(type_))\<close>: a constant has no \<^verbatim>\<open>__name__\<close>, so it gives
  \<^verbatim>\<open>str\<close> of the constant; for a class or a typing object the text is the host's, the
  parameter \<open>name_of\<close>.
\<close>

definition getattr_name :: "(pyobj \<Rightarrow> string) \<Rightarrow> pyobj \<Rightarrow> string" where
  "getattr_name name_of ty = (case ty of Value v \<Rightarrow> str_lit v | _ \<Rightarrow> name_of ty)"

text \<open>\<^verbatim>\<open>type(None)\<close>.\<close>

definition NoneType :: pyobj where
  "NoneType = Class ''NoneType''"

function (sequential) type_name :: "(pyobj \<Rightarrow> string) \<Rightarrow> pyobj \<Rightarrow> string" where
  "type_name name_of (Value (LStr s)) = quoted s"
| "type_name name_of ty =
     (let name = getattr_name name_of ty;
          name = (if startswith name ''typing.'' then drop 7 name else name);
          name = (if CHR ''['' \<in> set name then takeWhile (\<lambda>c. c \<noteq> CHR ''['') name else name);
          args = get_args ty;
          name = (if name = ''Union'' \<and> list_ex (\<lambda>a. py_eq a NoneType) args \<and> length args = 2
                  then ''Optional'' else name)
      in if args \<noteq> [] then
           name @ ''['' @
             join '', '' (map (type_name name_of) (filter (\<lambda>a. a \<noteq> NoneType) args)) @ '']''
         else name)"
  by pat_completeness auto
termination
  by (relation "measure (\<lambda>(name_of, t). msize t)")
     (auto simp: less_Suc_eq_le member_le_sum_list)

section \<open>The host's contract\<close>

text \<open>The builtin \<^verbatim>\<open>issubclass\<close> raises nothing but \<^verbatim>\<open>TypeError\<close>.\<close>

definition raises_only_TypeError :: "issubclass_fn \<Rightarrow> bool" where
  "raises_only_TypeError sub = (\<forall>a b. sub a b \<noteq> Inl OtherError)"

text \<open>\<open>rejects sub a b\<close>: \<^verbatim>\<open>issubclass(a, b)\<close> is \<^verbatim>\<open>False\<close> or raises \<^verbatim>\<open>TypeError\<close>, which is
  what Python does when \<open>a\<close> or \<open>b\<close> is a subscripted generic or a \<^verbatim>\<open>Literal\<close>.\<close>

definition rejects :: "issubclass_fn \<Rightarrow> pyobj \<Rightarrow> pyobj \<Rightarrow> bool" where
  "rejects sub a b = (sub a b = Inr False \<or> sub a b = Inl TypeError)"





abbreviation int_t :: pyobj where "int_t \<equiv> Class ''int''"
abbreviation str_t :: pyobj where "str_t \<equiv> Class ''str''"

text \<open>The host of the examples.\<close>

abbreviation python :: issubclass_fn where "python \<equiv> nominal_issubclass builtins"

section \<open>Results as booleans\<close>

text \<open>When the host raises nothing but \<^verbatim>\<open>TypeError\<close>, every \<^verbatim>\<open>try\<close> block falls through or
  returns, and \<^verbatim>\<open>any\<close> and \<^verbatim>\<open>all\<close> are the quantifiers over the elements.\<close>

lemma issubclass_or_pass_Inr:
  assumes "raises_only_TypeError sub"
  shows "issubclass_or_pass sub a b = Inr (sub a b = Inr True)"
proof (cases "sub a b")
  case (Inl e)
  with assms have "e = TypeError"
    by (cases e) (auto simp: raises_only_TypeError_def)
  with Inl show ?thesis by (simp add: issubclass_or_pass_def)
next
  case (Inr b)
  then show ?thesis by (simp add: issubclass_or_pass_def)
qed

lemma any_py_Inr:
  assumes "\<And>x. x \<in> set xs \<Longrightarrow> \<exists>b. f x = Inr b"
  shows "any_py f xs = Inr (\<exists>x\<in>set xs. f x = Inr True)"
  using assms
proof (induction xs)
  case Nil
  show ?case by simp
next
  case (Cons x xs)
  from Cons.prems obtain b where b: "f x = Inr b" by auto
  have "any_py f xs = Inr (\<exists>x\<in>set xs. f x = Inr True)"
    using Cons by simp
  with b show ?case by (cases b) auto
qed

lemma all_py_Inr:
  assumes "\<And>x. x \<in> set xs \<Longrightarrow> \<exists>b. f x = Inr b"
  shows "all_py f xs = Inr (\<forall>x\<in>set xs. f x = Inr True)"
  using assms
proof (induction xs)
  case Nil
  show ?case by simp
next
  case (Cons x xs)
  from Cons.prems obtain b where b: "f x = Inr b" by auto
  have "all_py f xs = Inr (\<forall>x\<in>set xs. f x = Inr True)"
    using Cons by simp
  with b show ?case by (cases b) auto
qed

lemma all_py_zip_Inr:
  assumes "\<And>a b. (a, b) \<in> set ps \<Longrightarrow> \<exists>c. f a b = Inr c"
  shows "all_py (\<lambda>(a, b). f a b) ps = Inr (\<forall>(a, b)\<in>set ps. f a b = Inr True)"
proof -
  have "all_py (\<lambda>(a, b). f a b) ps = Inr (\<forall>p\<in>set ps. (case p of (a, b) \<Rightarrow> f a b) = Inr True)"
    by (rule all_py_Inr) (use assms in auto)
  also have "(\<forall>p\<in>set ps. (case p of (a, b) \<Rightarrow> f a b) = Inr True)
      = (\<forall>(a, b)\<in>set ps. f a b = Inr True)"
    by (auto simp: split_def)
  finally show ?thesis .
qed

lemma strict_step:
  assumes sub: "raises_only_TypeError sub"
    and args: "\<And>u. u \<in> set (get_args r) \<Longrightarrow> \<exists>b. strict_types_are_compatible sub s u = Inr b"
    and zips: "\<And>a b. (a, b) \<in> set (zip (get_args s) (get_args r)) \<Longrightarrow>
        \<exists>c. strict_types_are_compatible sub a b = Inr c"
  shows "strict_types_are_compatible sub s r = Inr
     (py_eq s r \<or> r = Any \<or>
      (s \<noteq> Any \<and> (sub s r = Inr True \<or>
        (if get_origin s \<noteq> Some OUnion \<and> get_origin r = Some OUnion
         then (\<exists>u\<in>set (get_args r). strict_types_are_compatible sub s u = Inr True)
         else get_origin s \<noteq> None \<and> get_origin s = get_origin r \<and>
              length (get_args s) \<le> length (get_args r) \<and>
              (\<forall>(a, b)\<in>set (zip (get_args s) (get_args r)).
                  strict_types_are_compatible sub a b = Inr True)))))"
proof -
  have A: "any_py (\<lambda>u. strict_types_are_compatible sub s u) (get_args r)
      = Inr (\<exists>u\<in>set (get_args r). strict_types_are_compatible sub s u = Inr True)"
    by (rule any_py_Inr) (rule args)
  have Z: "all_py (\<lambda>(a, b). strict_types_are_compatible sub a b) (zip (get_args s) (get_args r))
      = Inr (\<forall>(a, b)\<in>set (zip (get_args s) (get_args r)).
               strict_types_are_compatible sub a b = Inr True)"
    by (rule all_py_zip_Inr) (rule zips)
  show ?thesis
    apply (subst strict_types_are_compatible.simps)
    apply (simp only: A Z issubclass_or_pass_Inr [OF sub] Let_def sum.case)
    apply (simp add: not_less del: split_paired_All split_paired_Ex)
    done
qed

lemma strict_returns:
  assumes "raises_only_TypeError sub"
  shows "\<exists>b. strict_types_are_compatible sub s r = Inr b"
proof (induction "msize s + msize r" arbitrary: s r rule: less_induct)
  case less
  have args: "\<And>u. u \<in> set (get_args r) \<Longrightarrow> \<exists>b. strict_types_are_compatible sub s u = Inr b"
    using less msize_get_args by (meson add_less_cancel_left)
  have zips: "\<And>a b. (a, b) \<in> set (zip (get_args s) (get_args r)) \<Longrightarrow>
      \<exists>c. strict_types_are_compatible sub a b = Inr c"
    using less msize_zip_args by blast
  show ?case
    using strict_step [OF assms args zips] by blast
qed

lemma strict_unfold:
  assumes "raises_only_TypeError sub"
  shows "strict_types_are_compatible sub s r = Inr
     (py_eq s r \<or> r = Any \<or>
      (s \<noteq> Any \<and> (sub s r = Inr True \<or>
        (if get_origin s \<noteq> Some OUnion \<and> get_origin r = Some OUnion
         then (\<exists>u\<in>set (get_args r). strict_types_are_compatible sub s u = Inr True)
         else get_origin s \<noteq> None \<and> get_origin s = get_origin r \<and>
              length (get_args s) \<le> length (get_args r) \<and>
              (\<forall>(a, b)\<in>set (zip (get_args s) (get_args r)).
                  strict_types_are_compatible sub a b = Inr True)))))"
  by (rule strict_step [OF assms]) (rule strict_returns [OF assms])+


lemma relaxed_step:
  assumes sub: "raises_only_TypeError sub"
    and sargs: "\<And>u. u \<in> set (get_args s) \<Longrightarrow> \<exists>b. relaxed_types_are_compatible sub u r = Inr b"
    and rargs: "\<And>u. u \<in> set (get_args r) \<Longrightarrow> \<exists>b. relaxed_types_are_compatible sub s u = Inr b"
    and both: "\<And>a b. a \<in> set (get_args s) \<Longrightarrow> b \<in> set (get_args r) \<Longrightarrow>
        \<exists>c. relaxed_types_are_compatible sub a b = Inr c"
  shows "relaxed_types_are_compatible sub s r = Inr
     (s = Any \<or> r = Any \<or> py_eq s r \<or> sub s r = Inr True \<or> sub r s = Inr True \<or>
      (if get_origin s = Some OUnion \<or> get_origin r = Some OUnion then
         (if get_origin s = Some OUnion \<and> get_origin r \<noteq> Some OUnion then
            (\<exists>u\<in>set (get_args s). relaxed_types_are_compatible sub u r = Inr True)
          else if get_origin r = Some OUnion \<and> get_origin s \<noteq> Some OUnion then
            (\<exists>u\<in>set (get_args r). relaxed_types_are_compatible sub s u = Inr True)
          else (\<exists>a\<in>set (get_args s). \<exists>b\<in>set (get_args r).
                  relaxed_types_are_compatible sub a b = Inr True))
       else get_origin s \<noteq> None \<and> get_origin s = get_origin r \<and>
         (if get_origin s = Some OLiteral then
            (\<exists>a\<in>set (get_args s). \<exists>b\<in>set (get_args r). py_eq a b)
          else length (get_args s) = length (get_args r) \<and>
            (\<forall>(a, b)\<in>set (zip (get_args s) (get_args r)).
                relaxed_types_are_compatible sub a b = Inr True))))"
proof -
  have S: "any_py (\<lambda>u. relaxed_types_are_compatible sub u r) (get_args s)
      = Inr (\<exists>u\<in>set (get_args s). relaxed_types_are_compatible sub u r = Inr True)"
    by (rule any_py_Inr) (rule sargs)
  have R: "any_py (\<lambda>u. relaxed_types_are_compatible sub s u) (get_args r)
      = Inr (\<exists>u\<in>set (get_args r). relaxed_types_are_compatible sub s u = Inr True)"
    by (rule any_py_Inr) (rule rargs)
  have inner: "any_py (\<lambda>arg2. relaxed_types_are_compatible sub a arg2) (get_args r)
      = Inr (\<exists>b\<in>set (get_args r). relaxed_types_are_compatible sub a b = Inr True)"
    if "a \<in> set (get_args s)" for a
    by (rule any_py_Inr) (rule both [OF that])
  have "any_py (\<lambda>arg1. any_py (\<lambda>arg2. relaxed_types_are_compatible sub arg1 arg2) (get_args r))
          (get_args s)
      = any_py (\<lambda>arg1. Inr (\<exists>b\<in>set (get_args r).
            relaxed_types_are_compatible sub arg1 b = Inr True)) (get_args s)"
    by (rule any_py_cong) (simp_all add: inner)
  also have "\<dots> = Inr (\<exists>a\<in>set (get_args s). \<exists>b\<in>set (get_args r).
            relaxed_types_are_compatible sub a b = Inr True)"
    by (subst any_py_Inr) auto
  finally have B: "any_py (\<lambda>arg1. any_py (\<lambda>arg2. relaxed_types_are_compatible sub arg1 arg2)
          (get_args r)) (get_args s)
      = Inr (\<exists>a\<in>set (get_args s). \<exists>b\<in>set (get_args r).
            relaxed_types_are_compatible sub a b = Inr True)" .
  have Z: "all_py (\<lambda>(a, b). relaxed_types_are_compatible sub a b) (zip (get_args s) (get_args r))
      = Inr (\<forall>(a, b)\<in>set (zip (get_args s) (get_args r)).
               relaxed_types_are_compatible sub a b = Inr True)"
    by (rule all_py_zip_Inr) (meson both set_zip_leftD set_zip_rightD)
  show ?thesis
    apply (subst relaxed_types_are_compatible.simps)
    apply (simp only: relaxed_check_union_compatibility.simps S R B Z
        issubclass_or_pass_Inr [OF sub] Let_def sum.case)
    apply (simp add: list_ex_iff del: split_paired_All split_paired_Ex not_None_eq)
    apply (auto simp del: split_paired_All split_paired_Ex; metis)
    done
qed

lemma relaxed_returns:
  assumes "raises_only_TypeError sub"
  shows "\<exists>b. relaxed_types_are_compatible sub s r = Inr b"
proof (induction "msize s + msize r" arbitrary: s r rule: less_induct)
  case less
  have sargs: "\<And>u. u \<in> set (get_args s) \<Longrightarrow> \<exists>b. relaxed_types_are_compatible sub u r = Inr b"
    using less msize_get_args by (meson add_less_cancel_right)
  have rargs: "\<And>u. u \<in> set (get_args r) \<Longrightarrow> \<exists>b. relaxed_types_are_compatible sub s u = Inr b"
    using less msize_get_args by (meson add_less_cancel_left)
  have both: "\<And>a b. a \<in> set (get_args s) \<Longrightarrow> b \<in> set (get_args r) \<Longrightarrow>
      \<exists>c. relaxed_types_are_compatible sub a b = Inr c"
    using less msize_get_args by (meson add_less_mono)
  show ?case
    using relaxed_step [OF assms sargs rargs both] by blast
qed

lemma relaxed_unfold:
  assumes "raises_only_TypeError sub"
  shows "relaxed_types_are_compatible sub s r = Inr
     (s = Any \<or> r = Any \<or> py_eq s r \<or> sub s r = Inr True \<or> sub r s = Inr True \<or>
      (if get_origin s = Some OUnion \<or> get_origin r = Some OUnion then
         (if get_origin s = Some OUnion \<and> get_origin r \<noteq> Some OUnion then
            (\<exists>u\<in>set (get_args s). relaxed_types_are_compatible sub u r = Inr True)
          else if get_origin r = Some OUnion \<and> get_origin s \<noteq> Some OUnion then
            (\<exists>u\<in>set (get_args r). relaxed_types_are_compatible sub s u = Inr True)
          else (\<exists>a\<in>set (get_args s). \<exists>b\<in>set (get_args r).
                  relaxed_types_are_compatible sub a b = Inr True))
       else get_origin s \<noteq> None \<and> get_origin s = get_origin r \<and>
         (if get_origin s = Some OLiteral then
            (\<exists>a\<in>set (get_args s). \<exists>b\<in>set (get_args r). py_eq a b)
          else length (get_args s) = length (get_args r) \<and>
            (\<forall>(a, b)\<in>set (zip (get_args s) (get_args r)).
                relaxed_types_are_compatible sub a b = Inr True))))"
  by (rule relaxed_step [OF assms]) (rule relaxed_returns [OF assms])+


section \<open>Facts about \<^verbatim>\<open>==\<close> and the host\<close>

lemma py_eq_Any_left: "py_eq Any d = (d = Any)"
  by (cases d) simp_all

lemma py_eq_Any_right: "py_eq d Any = (d = Any)"
  by (cases d) simp_all

lemma nominal_raises_only_TypeError: "raises_only_TypeError (nominal_issubclass H)"
  by (auto simp: raises_only_TypeError_def nominal_issubclass_def split: pyobj.splits)

text \<open>The checker reads the host only through its \<^verbatim>\<open>try\<close> block.\<close>

lemma issubclass_or_pass_idem:
  "issubclass_or_pass (issubclass_or_pass sub) = issubclass_or_pass sub"
  by (rule ext, rule ext) (auto simp: issubclass_or_pass_def split: sum.splits exn.splits)

lemma strict_host_cong:
  assumes "issubclass_or_pass sub = issubclass_or_pass sub'"
  shows "strict_types_are_compatible sub s r = strict_types_are_compatible sub' s r"
proof (induction "msize s + msize r" arbitrary: s r rule: less_induct)
  case less
  have A: "any_py (\<lambda>u. strict_types_are_compatible sub s u) (get_args r)
      = any_py (\<lambda>u. strict_types_are_compatible sub' s u) (get_args r)"
    by (rule any_py_cong) (use less msize_get_args in \<open>auto\<close>)
  have Z: "all_py (\<lambda>(a, b). strict_types_are_compatible sub a b) (zip (get_args s) (get_args r))
      = all_py (\<lambda>(a, b). strict_types_are_compatible sub' a b) (zip (get_args s) (get_args r))"
    by (rule all_py_cong) (use less msize_zip_args in \<open>auto\<close>)
  show ?case
    by (simp only: strict_types_are_compatible.simps [of sub s r]
          strict_types_are_compatible.simps [of sub' s r] Let_def A Z assms)
qed

lemma relaxed_host_cong:
  assumes "issubclass_or_pass sub = issubclass_or_pass sub'"
  shows "relaxed_types_are_compatible sub s r = relaxed_types_are_compatible sub' s r"
proof (induction "msize s + msize r" arbitrary: s r rule: less_induct)
  case less
  have S: "any_py (\<lambda>u. relaxed_types_are_compatible sub u r) (get_args s)
      = any_py (\<lambda>u. relaxed_types_are_compatible sub' u r) (get_args s)"
    by (rule any_py_cong) (use less msize_get_args in \<open>auto\<close>)
  have R: "any_py (\<lambda>u. relaxed_types_are_compatible sub s u) (get_args r)
      = any_py (\<lambda>u. relaxed_types_are_compatible sub' s u) (get_args r)"
    by (rule any_py_cong) (use less msize_get_args in \<open>auto\<close>)
  have B: "any_py (\<lambda>arg1. any_py (\<lambda>arg2. relaxed_types_are_compatible sub arg1 arg2)
          (get_args r)) (get_args s)
      = any_py (\<lambda>arg1. any_py (\<lambda>arg2. relaxed_types_are_compatible sub' arg1 arg2)
          (get_args r)) (get_args s)"
    by (rule any_py_cong, simp, rule any_py_cong, simp)
       (use less msize_get_args in \<open>meson add_less_mono\<close>)
  have Z: "all_py (\<lambda>(a, b). relaxed_types_are_compatible sub a b) (zip (get_args s) (get_args r))
      = all_py (\<lambda>(a, b). relaxed_types_are_compatible sub' a b) (zip (get_args s) (get_args r))"
    by (rule all_py_cong) (use less msize_zip_args in \<open>auto\<close>)
  show ?case
    by (simp only: relaxed_types_are_compatible.simps [of sub s r]
          relaxed_types_are_compatible.simps [of sub' s r]
          relaxed_check_union_compatibility.simps Let_def S R B Z assms)
qed

section \<open>\<^verbatim>\<open>Any\<close> on either side\<close>

text \<open>
  Claim C4. For every descriptor \<open>d\<close> and every host: the strict check of \<open>d\<close> against
  \<^verbatim>\<open>Any\<close> is true; the strict check of \<^verbatim>\<open>Any\<close> against \<open>d\<close> is true exactly when \<open>d\<close> is
  \<^verbatim>\<open>Any\<close>; the relaxed check is true as soon as one side is \<^verbatim>\<open>Any\<close>.
\<close>

theorem any_absorption:
  "strict_types_are_compatible sub d Any = Inr True
   \<and> strict_types_are_compatible sub Any d = Inr (d = Any)
   \<and> relaxed_types_are_compatible sub Any d = Inr True
   \<and> relaxed_types_are_compatible sub d Any = Inr True"
proof -
  have "strict_types_are_compatible sub d Any = Inr True"
    by (subst strict_types_are_compatible.simps) simp
  moreover have "strict_types_are_compatible sub Any d = Inr (d = Any)"
    by (subst strict_types_are_compatible.simps) (simp add: py_eq_Any_left)
  moreover have "relaxed_types_are_compatible sub Any d = Inr True"
    by (subst relaxed_types_are_compatible.simps) simp
  moreover have "relaxed_types_are_compatible sub d Any = Inr True"
    by (subst relaxed_types_are_compatible.simps) simp
  ultimately show ?thesis by simp
qed

theorem any_absorption_witness:
  "strict_types_are_compatible python (Subscripted ''list'' [int_t]) Any = Inr True
   \<and> strict_types_are_compatible python Any (Subscripted ''list'' [int_t]) = Inr False
   \<and> strict_types_are_compatible python Any Any = Inr True
   \<and> relaxed_types_are_compatible python Any (Subscripted ''list'' [int_t]) = Inr True
   \<and> relaxed_types_are_compatible python (Subscripted ''list'' [int_t]) Any = Inr True"
  using any_absorption [of python "Subscripted ''list'' [int_t]"] any_absorption [of python Any]
  by simp

section \<open>The entry point returns a verdict\<close>

text \<open>
  Claim C8. With a host that raises nothing but \<^verbatim>\<open>TypeError\<close>, the entry point returns a
  boolean for every pair of descriptors and every mode. A \<^verbatim>\<open>TypeError\<close> of the subclass
  check counts as "not a subclass": the \<^verbatim>\<open>try\<close> block falls through, and the verdict is
  the one the checker gives with the host that answers \<^verbatim>\<open>False\<close> wherever the given one
  raises \<^verbatim>\<open>TypeError\<close>.
\<close>

theorem never_raises:
  assumes "raises_only_TypeError sub"
  shows "(\<exists>verdict. types_are_compatible sub sender receiver type_validation = Inr verdict)
    \<and> (sub sender receiver = Inl TypeError \<longrightarrow> issubclass_or_pass sub sender receiver = Inr False)
    \<and> types_are_compatible sub sender receiver type_validation
        = types_are_compatible (issubclass_or_pass sub) sender receiver type_validation"
proof -
  have "\<exists>verdict. types_are_compatible sub sender receiver type_validation = Inr verdict"
    using strict_returns [OF assms] relaxed_returns [OF assms]
    by (auto simp: types_are_compatible_def)
  moreover have "sub sender receiver = Inl TypeError
      \<longrightarrow> issubclass_or_pass sub sender receiver = Inr False"
    by (simp add: issubclass_or_pass_def)
  moreover have "types_are_compatible sub sender receiver type_validation
        = types_are_compatible (issubclass_or_pass sub) sender receiver type_validation"
    using strict_host_cong [OF issubclass_or_pass_idem [symmetric]]
      relaxed_host_cong [OF issubclass_or_pass_idem [symmetric]]
    by (simp add: types_are_compatible_def)
  ultimately show ?thesis by blast
qed

theorem never_raises_witness:
  "raises_only_TypeError python
   \<and> python (UnionOf [int_t, str_t]) int_t = Inl TypeError
   \<and> issubclass_or_pass python (UnionOf [int_t, str_t]) int_t = Inr False
   \<and> types_are_compatible python (UnionOf [int_t, str_t]) int_t ''strict'' = Inr False
   \<and> types_are_compatible (issubclass_or_pass python) (UnionOf [int_t, str_t]) int_t ''strict''
       = Inr False"
proof -
  have h: "raises_only_TypeError python"
    by (rule nominal_raises_only_TypeError)
  have e: "python (UnionOf [int_t, str_t]) int_t = Inl TypeError"
    by (simp add: nominal_issubclass_def)
  have v: "types_are_compatible python (UnionOf [int_t, str_t]) int_t ''strict'' = Inr False"
    by (simp add: types_are_compatible_def strict_types_are_compatible.simps
        issubclass_or_pass_def nominal_issubclass_def)
  show ?thesis
    using never_raises [OF h, where sender = "UnionOf [int_t, str_t]" and receiver = int_t
        and type_validation = "''strict''"] h e v
    by simp
qed

section \<open>Rendering the constants of a \<^verbatim>\<open>Literal\<close>\<close>

lemma str_nat_small: "n < 10 \<Longrightarrow> str_nat n = [digits ! n]"
  by (subst str_nat.simps) simp

lemma digit_mem: "k < 10 \<Longrightarrow> digits ! k \<in> set digits"
  by (rule nth_mem) (simp add: digits_def)

lemma str_nat_digits: "set (str_nat n) \<subseteq> set digits"
proof (induction n rule: str_nat.induct)
  case (1 n)
  show ?case
  proof (cases "n < 10")
    case True
    then have "set (str_nat n) = {digits ! n}"
      by (simp only: str_nat_small list.set)
    then show ?thesis
      using digit_mem [OF True] by simp
  next
    case False
    have "n mod 10 < 10" by simp
    then have d: "digits ! (n mod 10) \<in> set digits"
      by (rule digit_mem)
    have ih: "set (str_nat (n div 10)) \<subseteq> set digits"
      using False 1 by blast
    have "str_nat n = str_nat (n div 10) @ [digits ! (n mod 10)]"
      using False by (subst str_nat.simps) (simp only: if_False)
    then have "set (str_nat n) = set (str_nat (n div 10)) \<union> {digits ! (n mod 10)}"
      by (simp only: set_append list.set)
    then show ?thesis
      using d ih by simp
  qed
qed

lemma str_int_chars: "set (str_int i) \<subseteq> insert CHR ''-'' (set digits)"
proof (cases "i < 0")
  case True
  then have "set (str_int i) = insert CHR ''-'' (set (str_nat (nat (- i))))"
    by (simp add: str_int_def)
  then show ?thesis
    using str_nat_digits [of "nat (- i)"] by auto
next
  case False
  then have "set (str_int i) = set (str_nat (nat i))"
    by (simp add: str_int_def)
  then show ?thesis
    using str_nat_digits [of "nat i"] by auto
qed

lemma startswith_mem:
  assumes "startswith s (c # p)"
  shows "c \<in> set s"
proof -
  have "c \<in> set (take (length (c # p)) s)"
    using assms by (simp add: startswith_def)
  then show ?thesis
    by (rule in_set_takeD)
qed

lemma type_name_LInt: "type_name name_of (Value (LInt i)) = str_int i"
proof -
  have "CHR ''['' \<notin> insert CHR ''-'' (set digits)"
    by (simp add: digits_def)
  then have a: "CHR ''['' \<notin> set (str_int i)"
    using str_int_chars [of i] by blast
  have "CHR ''t'' \<notin> insert CHR ''-'' (set digits)"
    by (simp add: digits_def)
  then have "CHR ''t'' \<notin> set (str_int i)"
    using str_int_chars [of i] by blast
  then have b: "\<not> startswith (str_int i) ''typing.''"
    using startswith_mem by blast
  show ?thesis
    by (simp add: getattr_name_def a b)
qed

lemma filter_NoneType_Value: "filter (\<lambda>a. a \<noteq> NoneType) (map Value cs) = map Value cs"
  by (rule filter_True) (auto simp: NoneType_def)

lemma type_name_LiteralOf:
  "\<exists>name. type_name name_of (LiteralOf (v # vs))
         = name @ ''['' @ join '', '' (map (\<lambda>c. type_name name_of (Value c)) (v # vs)) @ '']''"
proof -
  have "\<exists>name. type_name name_of (LiteralOf (v # vs))
     = (if get_args (LiteralOf (v # vs)) \<noteq> [] then
         name @ ''['' @ join '', '' (map (type_name name_of)
            (filter (\<lambda>a. a \<noteq> NoneType) (get_args (LiteralOf (v # vs))))) @ '']''
        else name)"
    by (subst type_name.simps, simp only: Let_def, rule exI, rule refl)
  then show ?thesis
    by (simp only: get_args.simps filter_NoneType_Value map_map comp_def map_is_Nil_conv
        list.distinct if_True not_False_eq_True)
qed

text \<open>
  Claim C9, as amended. The renderer wraps a constant in single quotes only when it is a
  string (the test \<^verbatim>\<open>isinstance(type_, str)\<close>): a string constant renders as the string
  between single quotes; an integer, a boolean and \<^verbatim>\<open>None\<close> render as their \<^verbatim>\<open>str\<close>, with no
  quotes. The rendering of a \<^verbatim>\<open>Literal\<close> lists these renderings between brackets.
\<close>

theorem string_constants_are_quoted:
  "type_name name_of (Value (LStr s)) = [quote] @ s @ [quote]
   \<and> type_name name_of (Value (LInt i)) = str_int i
   \<and> type_name name_of (Value (LBool b)) = (if b then ''True'' else ''False'')
   \<and> type_name name_of (Value LNone) = ''None''
   \<and> (\<exists>name. type_name name_of (LiteralOf (v # vs))
         = name @ ''['' @ join '', '' (map (\<lambda>c. type_name name_of (Value c)) (v # vs)) @ '']'')"
proof -
  have "type_name name_of (Value (LStr s)) = [quote] @ s @ [quote]"
    by (simp add: quoted_def)
  moreover have "type_name name_of (Value (LBool b)) = (if b then ''True'' else ''False'')"
    by (simp add: getattr_name_def startswith_def)
  moreover have "type_name name_of (Value LNone) = ''None''"
    by (simp add: getattr_name_def startswith_def)
  ultimately show ?thesis
    using type_name_LInt type_name_LiteralOf by blast
qed

theorem string_constants_are_quoted_witness:
  "type_name (\<lambda>_. ''typing.Literal[x, 1]'') (Value (LStr ''a'')) = [quote] @ ''a'' @ [quote]
   \<and> type_name (\<lambda>_. ''typing.Literal[x, 1]'') (Value (LInt 1)) = ''1''
   \<and> type_name (\<lambda>_. ''typing.Literal[x, 1]'') (LiteralOf [LStr ''a'', LInt 1])
       = ''Literal['' @ [quote] @ ''a'' @ [quote] @ '', 1]''"
proof -
  have "str_int 1 = ''1''"
    by (simp add: str_int_def str_nat_small digits_def)
  moreover have "type_name (\<lambda>_. ''typing.Literal[x, 1]'') (LiteralOf [LStr ''a'', LInt 1])
       = ''Literal['' @ [quote] @ ''a'' @ [quote] @ '', 1]''"
    by (simp add: getattr_name_def startswith_def quoted_def NoneType_def str_int_def
        str_nat_small digits_def)
  ultimately show ?thesis
    using string_constants_are_quoted [of "\<lambda>_. ''typing.Literal[x, 1]''" "''a''" 1]
    by simp
qed

text \<open>The claim as stated fails: \<^verbatim>\<open>_type_name(1)\<close> is \<^verbatim>\<open>1\<close>, which no text wrapped in single
  quotes equals.\<close>

theorem quotes_every_constant_counterexample:
  "\<not> (\<forall>name_of v. \<exists>repr. type_name name_of (Value v) = [quote] @ repr @ [quote])"
proof
  assume "\<forall>name_of v. \<exists>repr. type_name name_of (Value v) = [quote] @ repr @ [quote]"
  then obtain repr where "type_name (\<lambda>_. []) (Value (LInt 1)) = [quote] @ repr @ [quote]"
    by blast
  moreover have "str_int 1 = ''1''"
    by (simp add: str_int_def str_nat_small digits_def)
  ultimately show False
    by (simp add: getattr_name_def startswith_def quote_def)
qed

section \<open>More facts about \<^verbatim>\<open>==\<close> and the host\<close>

lemma issubclass_or_pass_rejects:
  "rejects sub a b \<Longrightarrow> issubclass_or_pass sub a b = Inr False"
  by (auto simp: rejects_def issubclass_or_pass_def)

lemma nominal_rejects:
  "\<not> (\<exists>c d. a = Class c \<and> b = Class d) \<Longrightarrow> rejects (nominal_issubclass H) a b"
  by (auto simp: rejects_def nominal_issubclass_def split: pyobj.splits)

lemmas eval_simps = strict_types_are_compatible.simps relaxed_types_are_compatible.simps
  relaxed_check_union_compatibility.simps issubclass_or_pass_def nominal_issubclass_def
  builtins_def



text \<open>\<^verbatim>\<open>==\<close> is an equivalence on descriptors.\<close>

lemma lit_eq_sym: "lit_eq a b = lit_eq b a"
  by (cases a; cases b) auto


lemma py_eq_sym: "py_eq a b = py_eq b a"
proof (induction a arbitrary: b)
  case (Subscripted c xs)
  show ?case
  proof (cases b)
    case (Subscripted d ys)
    have "py_eq (xs ! i) (ys ! i) = py_eq (ys ! i) (xs ! i)" if "i < length xs" for i
      by (rule Subscripted.IH) (rule nth_mem [OF that])
    then have "list_all2 py_eq xs ys = list_all2 py_eq ys xs"
      by (auto simp: list_all2_conv_all_nth)
    then show ?thesis
      using Subscripted by auto
  qed simp_all
next
  case (UnionOf xs)
  show ?case
  proof (cases b)
    case (UnionOf ys)
    have "(\<exists>y\<in>set ys. py_eq x y) = (\<exists>y\<in>set ys. py_eq y x)" if "x \<in> set xs" for x
      using UnionOf.IH [OF that] by simp
    moreover have "(\<exists>x\<in>set xs. py_eq x y) = (\<exists>x\<in>set xs. py_eq y x)" for y
      using UnionOf.IH by blast
    ultimately show ?thesis
      using UnionOf by (auto simp: list_all_iff list_ex_iff)
  qed simp_all
next
  case (LiteralOf vs)
  show ?case by (cases b) auto
next
  case (Value v)
  show ?case by (cases b) (simp_all add: lit_eq_sym)
next
  case Any
  show ?case by (cases b) auto
next
  case (Class c)
  show ?case by (cases b) auto
next
  case (Alias c)
  show ?case by (cases b) auto
qed




section \<open>Strict check against a \<^verbatim>\<open>Union\<close>\<close>




section \<open>Relaxed check of two \<^verbatim>\<open>Literal\<close>s\<close>

text \<open>
  Claim C5. For two \<^verbatim>\<open>Literal\<close> descriptors that are not equal and that the host's
  \<^verbatim>\<open>issubclass\<close> rejects in both directions (Python raises \<^verbatim>\<open>TypeError\<close> on them), the
  relaxed check is true exactly when some constant of the sender equals, by Python's
  \<^verbatim>\<open>==\<close>, some constant of the receiver: the value sets intersect, whatever the positions.
\<close>

theorem relaxed_literal_intersection:
  assumes "rejects sub (LiteralOf xs) (LiteralOf ys)"
    and "rejects sub (LiteralOf ys) (LiteralOf xs)"
    and "\<not> py_eq (LiteralOf xs) (LiteralOf ys)"
  shows "relaxed_types_are_compatible sub (LiteralOf xs) (LiteralOf ys)
      = Inr (\<exists>a\<in>set xs. \<exists>b\<in>set ys. lit_eq a b)"
  using assms(3)
  by (subst relaxed_types_are_compatible.simps)
     (simp add: issubclass_or_pass_rejects [OF assms(1)] issubclass_or_pass_rejects [OF assms(2)]
        list_ex_iff)

theorem relaxed_literal_intersection_witness:
  "rejects python (LiteralOf [LStr ''a'', LStr ''b'']) (LiteralOf [LStr ''b'', LStr ''c''])
   \<and> rejects python (LiteralOf [LStr ''b'', LStr ''c'']) (LiteralOf [LStr ''a'', LStr ''b''])
   \<and> \<not> py_eq (LiteralOf [LStr ''a'', LStr ''b'']) (LiteralOf [LStr ''b'', LStr ''c''])
   \<and> relaxed_types_are_compatible python (LiteralOf [LStr ''a'', LStr ''b''])
        (LiteralOf [LStr ''b'', LStr ''c'']) = Inr True
   \<and> rejects python (LiteralOf [LStr ''a'']) (LiteralOf [LStr ''b''])
   \<and> rejects python (LiteralOf [LStr ''b'']) (LiteralOf [LStr ''a''])
   \<and> \<not> py_eq (LiteralOf [LStr ''a'']) (LiteralOf [LStr ''b''])
   \<and> relaxed_types_are_compatible python (LiteralOf [LStr ''a'']) (LiteralOf [LStr ''b''])
        = Inr False"
proof -
  have r: "rejects python (LiteralOf xs) (LiteralOf ys)" for xs ys
    by (rule nominal_rejects) simp
  have "LStr ''a'' \<notin> set [LStr ''b'', LStr ''c'']"
    by simp
  then have "set [LStr ''a'', LStr ''b''] \<noteq> set [LStr ''b'', LStr ''c'']"
    by (metis list.set_intros(1))
  then have n: "\<not> py_eq (LiteralOf [LStr ''a'', LStr ''b'']) (LiteralOf [LStr ''b'', LStr ''c''])"
    by (simp only: py_eq.simps not_False_eq_True)
  have n': "\<not> py_eq (LiteralOf [LStr ''a'']) (LiteralOf [LStr ''b''])"
    by simp
  show ?thesis
    using relaxed_literal_intersection [OF r r n] relaxed_literal_intersection [OF r r n'] r n n'
    by simp
qed

section \<open>Relaxed check with a \<^verbatim>\<open>Union\<close>\<close>



section \<open>Bare and subscripted generics, strictly\<close>

text \<open>
  Claim C7, as amended. Let the host raise nothing but \<^verbatim>\<open>TypeError\<close> and let \<open>args\<close> be a
  non-empty argument list. The bare typing alias (\<^verbatim>\<open>List\<close>: origin \<^verbatim>\<open>list\<close>, no argument) as
  sender is strictly compatible with every subscripted form of the same origin: the
  positional comparison of no argument is vacuously true. In the other direction, and in
  both directions when the bare form is the plain class (no origin), the check is false
  whenever the host's \<^verbatim>\<open>issubclass\<close> rejects the pair.
\<close>

theorem bare_versus_parameterized:
  assumes "raises_only_TypeError sub" and "args \<noteq> []"
  shows "strict_types_are_compatible sub (Alias c) (Subscripted c args) = Inr True
    \<and> (rejects sub (Subscripted c args) (Alias c)
        \<longrightarrow> strict_types_are_compatible sub (Subscripted c args) (Alias c) = Inr False)
    \<and> (rejects sub (Class c) (Subscripted c args)
        \<longrightarrow> strict_types_are_compatible sub (Class c) (Subscripted c args) = Inr False)
    \<and> (rejects sub (Subscripted c args) (Class c)
        \<longrightarrow> strict_types_are_compatible sub (Subscripted c args) (Class c) = Inr False)"
proof -
  have "strict_types_are_compatible sub (Alias c) (Subscripted c args) = Inr True"
    by (subst strict_unfold [OF assms(1)]) simp
  moreover have "strict_types_are_compatible sub (Subscripted c args) (Alias c) = Inr False"
    if "rejects sub (Subscripted c args) (Alias c)"
    using that assms(2)
    by (subst strict_unfold [OF assms(1)]) (auto simp: rejects_def)
  moreover have "strict_types_are_compatible sub (Class c) (Subscripted c args) = Inr False"
    if "rejects sub (Class c) (Subscripted c args)"
    using that by (subst strict_unfold [OF assms(1)]) (auto simp: rejects_def)
  moreover have "strict_types_are_compatible sub (Subscripted c args) (Class c) = Inr False"
    if "rejects sub (Subscripted c args) (Class c)"
    using that by (subst strict_unfold [OF assms(1)]) (auto simp: rejects_def)
  ultimately show ?thesis by blast
qed

theorem bare_versus_parameterized_witness:
  "raises_only_TypeError python \<and> [Any] \<noteq> []
   \<and> strict_types_are_compatible python (Alias ''list'') (Subscripted ''list'' [Any]) = Inr True
   \<and> rejects python (Subscripted ''list'' [Any]) (Alias ''list'')
   \<and> strict_types_are_compatible python (Subscripted ''list'' [Any]) (Alias ''list'') = Inr False
   \<and> rejects python (Class ''list'') (Subscripted ''list'' [Any])
   \<and> strict_types_are_compatible python (Class ''list'') (Subscripted ''list'' [Any]) = Inr False
   \<and> rejects python (Subscripted ''list'' [Any]) (Class ''list'')
   \<and> strict_types_are_compatible python (Subscripted ''list'' [Any]) (Class ''list'') = Inr False"
proof -
  have h: "raises_only_TypeError python"
    by (rule nominal_raises_only_TypeError)
  have r: "rejects python (Subscripted ''list'' [Any]) b" for b
    by (rule nominal_rejects) simp
  have r': "rejects python b (Subscripted ''list'' [Any])" for b
    by (rule nominal_rejects) simp
  show ?thesis
    using bare_versus_parameterized [OF h, where args = "[Any]" and c = "''list''"] h r r'
    by simp
qed

text \<open>The claim as stated fails: \<^verbatim>\<open>List\<close> is accepted where \<^verbatim>\<open>List[int]\<close> is expected, and the
  two are not equal.\<close>

theorem bare_versus_parameterized_counterexample:
  "strict_types_are_compatible python (Alias ''list'') (Subscripted ''list'' [int_t]) = Inr True
   \<and> \<not> py_eq (Alias ''list'') (Subscripted ''list'' [int_t])"
  by (simp add: eval_simps)

section \<open>Positional comparison of arguments, strictly\<close>






section \<open>Relaxed compatibility is symmetric\<close>

lemma in_set_zip_swap: "((b, a) \<in> set (zip ys xs)) = ((a, b) \<in> set (zip xs ys))"
  by (auto simp: in_set_zip)

lemma relaxed_sym:
  assumes "raises_only_TypeError sub"
  shows "relaxed_types_are_compatible sub sender receiver
       = relaxed_types_are_compatible sub receiver sender"
proof (induction "msize sender + msize receiver" arbitrary: sender receiver rule: less_induct)
  case less
  let ?R = "\<lambda>a b. relaxed_types_are_compatible sub a b = Inr True"
  have ih_s: "?R u receiver = ?R receiver u" if "u \<in> set (get_args sender)" for u
    using less [of u receiver] msize_get_args [OF that] by simp
  have ih_r: "?R sender u = ?R u sender" if "u \<in> set (get_args receiver)" for u
    using less [of sender u] msize_get_args [OF that] by simp
  have ih_b: "?R a b = ?R b a"
    if "a \<in> set (get_args sender)" and "b \<in> set (get_args receiver)" for a b
    using less [of a b] msize_get_args [OF that(1)] msize_get_args [OF that(2)] by simp
  have P1: "(\<exists>u\<in>set (get_args sender). ?R u receiver) = (\<exists>u\<in>set (get_args sender). ?R receiver u)"
    using ih_s by blast
  have P2: "(\<exists>u\<in>set (get_args receiver). ?R sender u) = (\<exists>u\<in>set (get_args receiver). ?R u sender)"
    using ih_r by blast
  have P3: "(\<exists>a\<in>set (get_args sender). \<exists>b\<in>set (get_args receiver). ?R a b)
      = (\<exists>b\<in>set (get_args receiver). \<exists>a\<in>set (get_args sender). ?R b a)"
    using ih_b by blast
  have P4: "(\<exists>a\<in>set (get_args sender). \<exists>b\<in>set (get_args receiver). py_eq a b)
      = (\<exists>b\<in>set (get_args receiver). \<exists>a\<in>set (get_args sender). py_eq b a)"
    using py_eq_sym by blast
  have P5: "(\<forall>(a, b)\<in>set (zip (get_args sender) (get_args receiver)). ?R a b)
      = (\<forall>(b, a)\<in>set (zip (get_args receiver) (get_args sender)). ?R b a)"
  proof -
    have "?R a b = ?R b a" if "(a, b) \<in> set (zip (get_args sender) (get_args receiver))" for a b
      using that ih_b by (meson set_zip_leftD set_zip_rightD)
    then show ?thesis
      using in_set_zip_swap [of _ _ "get_args receiver" "get_args sender"] by fast
  qed
  show ?case
    apply (subst relaxed_unfold [OF assms, of sender receiver])
    apply (subst relaxed_unfold [OF assms, of receiver sender])
    apply (simp only: P1 P2 P3 P4 P5 py_eq_sym [of sender receiver])
    apply (cases "get_origin sender = get_origin receiver")
     apply (auto simp del: split_paired_All split_paired_Ex)
    done
qed


text \<open>
  Claim C10. With a host that raises nothing but \<^verbatim>\<open>TypeError\<close>, the relaxed check gives the
  same result when sender and receiver are exchanged.
\<close>

theorem relaxed_symmetric:
  assumes "raises_only_TypeError sub"
  shows "relaxed_types_are_compatible sub sender receiver
       = relaxed_types_are_compatible sub receiver sender"
  using assms by (rule relaxed_sym)

theorem relaxed_symmetric_witness:
  "raises_only_TypeError python
   \<and> relaxed_types_are_compatible python (Subscripted ''list'' [Class ''bool''])
        (Subscripted ''list'' [int_t]) = Inr True
   \<and> relaxed_types_are_compatible python (Subscripted ''list'' [int_t])
        (Subscripted ''list'' [Class ''bool'']) = Inr True"
proof -
  have h: "raises_only_TypeError python"
    by (rule nominal_raises_only_TypeError)
  have "relaxed_types_are_compatible python (Subscripted ''list'' [Class ''bool''])
      (Subscripted ''list'' [int_t]) = Inr True"
    by (simp add: eval_simps)
  then show ?thesis
    using relaxed_symmetric [OF h, where sender = "Subscripted ''list'' [Class ''bool'']"
        and receiver = "Subscripted ''list'' [int_t]"] h
    by simp
qed

section \<open>The order of the alternatives of a \<^verbatim>\<open>Union\<close>\<close>
















end
